theory Spec2Isabelle
  imports Complex_Main
begin

section \<open>JavaScript values at run time\<close>

text \<open>
  The task list feature is TypeScript; its types are erased at run time and the payload
  of the initial fetch is never checked against them. The state of the hook is therefore
  modelled as a run-time value, and every place where the source would throw is a
  branch that returns an error.

  A \<open>number\<close> is an IEEE double. Only \<open>!==\<close> is ever applied to one, so a finite
  double is represented by the rational it denotes (\<open>+0\<close> and \<open>-0\<close>, which \<open>!==\<close> does not
  tell apart, are both \<open>Finite 0\<close>); the two infinities and \<open>NaN\<close> are kept apart.
  A string is a list of characters, one per code point.
\<close>

datatype number = Finite rat | PosInfinity | NegInfinity | NaN

datatype js_error = TypeError | SyntaxError | Error string

datatype jsval =
    JUndefined
  | JNull
  | JBool bool
  | JNum number
  | JStr string
  | JArr "jsval list"
  | JObj "(string \<times> jsval) list"

text \<open>
  \<open>a === b\<close> on two numbers: \<open>NaN\<close> is equal to nothing, itself included.
\<close>

definition number_strict_equals :: "number \<Rightarrow> number \<Rightarrow> bool" where
  "number_strict_equals a b = (a \<noteq> NaN \<and> a = b)"

text \<open>
  \<open>v !== id\<close> where \<open>id\<close> is a number: values of another type are never strictly equal
  to a number.
\<close>

fun strict_not_equals :: "jsval \<Rightarrow> number \<Rightarrow> bool" where
  "strict_not_equals (JNum m) n = (\<not> number_strict_equals m n)"
| "strict_not_equals _ n = True"

text \<open>
  \<open>task.id\<close>: reading a property of \<open>undefined\<close> or \<open>null\<close> throws a TypeError; an object
  yields its own property \<open>id\<close> (each own property is listed once), or \<open>undefined\<close> when
  it has none; booleans, numbers, strings and arrays have no property \<open>id\<close>.
\<close>

fun member_id :: "jsval \<Rightarrow> js_error + jsval" where
  "member_id JUndefined = Inl TypeError"
| "member_id JNull = Inl TypeError"
| "member_id (JObj props) =
     Inr (case map_of props ''id'' of Some v \<Rightarrow> v | None \<Rightarrow> JUndefined)"
| "member_id _ = Inr JUndefined"

text \<open>
  \<open>[...prev]\<close>: an array spreads to its elements, a string to its code points; every
  other value that JSON can produce is not iterable, and spreading it throws.
\<close>

fun spread :: "jsval \<Rightarrow> js_error + jsval list" where
  "spread (JArr xs) = Inr xs"
| "spread (JStr s) = Inr (map (\<lambda>c. JStr [c]) s)"
| "spread _ = Inl TypeError"

text \<open>
  \<open>Array.prototype.filter\<close> with a callback that may throw: the elements are visited in
  order and the first exception ends the call.
\<close>

fun Array_filter :: "(jsval \<Rightarrow> js_error + bool) \<Rightarrow> jsval list \<Rightarrow> js_error + jsval list" where
  "Array_filter p [] = Inr []"
| "Array_filter p (x # xs) =
     (case p x of
        Inl e \<Rightarrow> Inl e
      | Inr keep \<Rightarrow>
          (case Array_filter p xs of
             Inl e \<Rightarrow> Inl e
           | Inr ys \<Rightarrow> Inr (if keep then x # ys else ys)))"

section \<open>The Task interface\<close>

text \<open>
  \<open>interface Task { id: number; title: string; description: string; completed: boolean }\<close>.
  The field \<open>id\<close> is written \<open>id'\<close> here. \<open>Task_obj\<close> is the object a well-typed
  \<open>Task\<close> is at run time, \<open>Task_array\<close> a well-typed \<open>Task[]\<close>.
\<close>

record Task =
  id' :: number
  title :: string
  description :: string
  completed :: bool

definition Task_obj :: "Task \<Rightarrow> jsval" where
  "Task_obj t =
     JObj [(''id'', JNum (id' t)), (''title'', JStr (title t)),
           (''description'', JStr (description t)), (''completed'', JBool (completed t))]"

definition Task_array :: "Task list \<Rightarrow> jsval" where
  "Task_array ts = JArr (map Task_obj ts)"

section \<open>The hook \<open>useTask\<close>\<close>

text \<open>
  The two \<open>useState\<close> cells of the hook, and the console its effect writes to.
  \<open>useState<Task[]>([])\<close> and \<open>useState(true)\<close> give the initial state.
\<close>

record hook_state =
  tasks :: jsval
  loading :: bool
  console :: "jsval list"

definition useTask_init :: hook_state where
  "useTask_init = \<lparr>tasks = JArr [], loading = True, console = []\<rparr>"

text \<open>
  \<open>handleNewTask\<close>: the updater \<open>(prev) => [...prev, {id: Math.random(), title: newTask,
  description: "", completed: true}]\<close> applied to the current state. The value that
  \<open>Math.random()\<close> returns is the first argument. An exception in the updater is the
  result \<open>Inl\<close>.
\<close>

definition handleNewTask :: "number \<Rightarrow> string \<Rightarrow> hook_state \<Rightarrow> js_error + hook_state" where
  "handleNewTask random newTask st =
     (case spread (tasks st) of
        Inl e \<Rightarrow> Inl e
      | Inr prev \<Rightarrow>
          Inr (st\<lparr>tasks :=
            JArr (prev @
              [JObj [(''id'', JNum random), (''title'', JStr newTask),
                     (''description'', JStr ''''), (''completed'', JBool True)]])\<rparr>))"

text \<open>
  \<open>handleDeleteTask\<close>: the updater \<open>(prev) => prev.filter((task) => task.id !== id)\<close>.
  Only an array has a method \<open>filter\<close>: on every other value the call throws.
\<close>

definition handleDeleteTask :: "number \<Rightarrow> hook_state \<Rightarrow> js_error + hook_state" where
  "handleDeleteTask i st =
     (case tasks st of
        JArr prev \<Rightarrow>
          (case Array_filter
                  (\<lambda>task. case member_id task of
                             Inl e \<Rightarrow> Inl e
                           | Inr v \<Rightarrow> Inr (strict_not_equals v i))
                  prev of
             Inl e \<Rightarrow> Inl e
           | Inr kept \<Rightarrow> Inr (st\<lparr>tasks := JArr kept\<rparr>))
      | _ \<Rightarrow> Inl TypeError)"

text \<open>
  What \<open>fetch("./tasks.json")\<close> settles to: a rejection, or a response with its \<open>ok\<close>
  flag and what its \<open>json()\<close> promise settles to (a rejection when the body does not
  parse, the parsed value otherwise).
\<close>

record response =
  ok :: bool
  json :: "js_error + jsval"

text \<open>
  The body of the \<open>try\<close> block of \<open>getTasks\<close>: each \<open>await\<close> rethrows a rejection,
  \<open>if (!response.ok) throw new Error("error")\<close>, then \<open>console.log(data)\<close> and
  \<open>setTasks(data)\<close>.
\<close>

definition getTasks_try :: "js_error + response \<Rightarrow> hook_state \<Rightarrow> js_error + hook_state" where
  "getTasks_try fetched st =
     (case fetched of
        Inl e \<Rightarrow> Inl e
      | Inr response \<Rightarrow>
          if \<not> ok response then Inl (Error ''error'')
          else (case json response of
                  Inl e \<Rightarrow> Inl e
                | Inr data \<Rightarrow> Inr (st\<lparr>console := console st @ [data], tasks := data\<rparr>)))"

text \<open>
  \<open>getTasks\<close>: \<open>try { ... } catch (e) { } finally { setLoading(false) }\<close>. The result is
  what the promise of the \<open>async\<close> function settles to: \<open>Inl\<close> would be a rejection.
\<close>

definition getTasks :: "js_error + response \<Rightarrow> hook_state \<Rightarrow> js_error + hook_state" where
  "getTasks fetched st =
     (let caught = (case getTasks_try fetched st of Inl e \<Rightarrow> st | Inr st' \<Rightarrow> st')
      in Inr (caught\<lparr>loading := False\<rparr>))"

section \<open>Calls and events of a mounted hook\<close>

text \<open>
  A call of one of the two operations the hook returns. \<open>NewTask r t\<close> is
  \<open>handleNewTask(t)\<close> in which \<open>Math.random()\<close> returns \<open>r\<close>.
\<close>

datatype call = NewTask number string | DeleteTask number

fun do_call :: "call \<Rightarrow> hook_state \<Rightarrow> js_error + hook_state" where
  "do_call (NewTask r t) st = handleNewTask r t st"
| "do_call (DeleteTask i) st = handleDeleteTask i st"

text \<open>
  What happens to a mounted hook: the fetch that the effect started settles, or an
  operation is called. A run ends at the first exception (React unmounts a component
  whose state updater throws).
\<close>

datatype event = Settled "js_error + response" | Called call

fun step :: "event \<Rightarrow> hook_state \<Rightarrow> js_error + hook_state" where
  "step (Settled fetched) st = getTasks fetched st"
| "step (Called c) st = do_call c st"

fun run :: "event list \<Rightarrow> hook_state \<Rightarrow> js_error + hook_state" where
  "run [] st = Inr st"
| "run (e # es) st = (case step e st of Inl err \<Rightarrow> Inl err | Inr st' \<Rightarrow> run es st')"

fun is_Settled :: "event \<Rightarrow> bool" where
  "is_Settled (Settled fetched) = True"
| "is_Settled (Called c) = False"

section \<open>Ids and counts of a collection\<close>

text \<open>
  The ids of the members of a collection, as \<open>task.id\<close> reads them; a value that is
  not an array has no members.
\<close>

definition ids_of :: "jsval \<Rightarrow> (js_error + jsval) list" where
  "ids_of v = (case v of JArr xs \<Rightarrow> map member_id xs | _ \<Rightarrow> [])"

definition is_array :: "jsval \<Rightarrow> bool" where
  "is_array v = (case v of JArr xs \<Rightarrow> True | _ \<Rightarrow> False)"

definition unique_ids :: "jsval \<Rightarrow> bool" where
  "unique_ids v = distinct (ids_of v)"

definition fresh_id :: "number \<Rightarrow> jsval \<Rightarrow> bool" where
  "fresh_id r v = (Inr (JNum r) \<notin> set (ids_of v))"

text \<open>Some member's id is \<open>===\<close> to \<open>i\<close>: the test of \<open>handleDeleteTask\<close>, negated.\<close>

definition id_matches :: "number \<Rightarrow> jsval \<Rightarrow> bool" where
  "id_matches i v =
     list_ex (\<lambda>w. case w of Inl e \<Rightarrow> False | Inr x \<Rightarrow> \<not> strict_not_equals x i) (ids_of v)"

text \<open>
  An event brings no id into the collection that a present member has: a new task's
  random id is not among the ids present, and a payload that the load assigns is an
  array whose members' ids differ from one another.
\<close>

fun brings_new_ids :: "event \<Rightarrow> hook_state \<Rightarrow> bool" where
  "brings_new_ids (Called (NewTask r t)) st = fresh_id r (tasks st)"
| "brings_new_ids (Called (DeleteTask i)) st = True"
| "brings_new_ids (Settled fetched) st =
     (case getTasks_try fetched st of
        Inl e \<Rightarrow> True
      | Inr st' \<Rightarrow> is_array (tasks st') \<and> unique_ids (tasks st'))"

fun ids_fresh :: "event list \<Rightarrow> hook_state \<Rightarrow> bool" where
  "ids_fresh [] st = True"
| "ids_fresh (e # es) st =
     (brings_new_ids e st \<and>
      (case step e st of Inl err \<Rightarrow> True | Inr st' \<Rightarrow> ids_fresh es st'))"

text \<open>The number of \<open>handleNewTask\<close> calls in a sequence of calls.\<close>

fun creates :: "call list \<Rightarrow> nat" where
  "creates [] = 0"
| "creates (NewTask r t # cs) = Suc (creates cs)"
| "creates (DeleteTask i # cs) = creates cs"

text \<open>
  The number of \<open>handleDeleteTask\<close> calls in a sequence of calls whose id matched a
  member of the collection at the time of the call.
\<close>

fun matched_deletes :: "call list \<Rightarrow> hook_state \<Rightarrow> nat" where
  "matched_deletes [] st = 0"
| "matched_deletes (c # cs) st =
     (case c of
        NewTask r t \<Rightarrow> 0
      | DeleteTask i \<Rightarrow> if id_matches i (tasks st) then 1 else 0)
     + (case do_call c st of Inl err \<Rightarrow> 0 | Inr st' \<Rightarrow> matched_deletes cs st')"

section \<open>The component \<open>Tasks\<close>\<close>

text \<open>
  The state of the component: the state of the hook it calls and its own cell
  \<open>useState("")\<close>, the draft. The three handlers are the arrow functions of its JSX:
  \<open>onClick={() => handleNewTask(newTask)}\<close> on the button,
  \<open>onChange={(e) => setNewTask(e.target.value)}\<close> on the input and
  \<open>onClick={() => handleDeleteTask(task.id)}\<close> on a row, whose \<open>task.id\<close> is the
  argument.
\<close>

record Tasks_state =
  hook :: hook_state
  newTask :: string

definition Tasks_init :: Tasks_state where
  "Tasks_init = \<lparr>hook = useTask_init, newTask = ''''\<rparr>"

definition button_onClick :: "number \<Rightarrow> Tasks_state \<Rightarrow> js_error + Tasks_state" where
  "button_onClick random c =
     (case handleNewTask random (newTask c) (hook c) of
        Inl e \<Rightarrow> Inl e
      | Inr h \<Rightarrow> Inr (c\<lparr>hook := h\<rparr>))"

definition input_onChange :: "string \<Rightarrow> Tasks_state \<Rightarrow> Tasks_state" where
  "input_onChange target_value c = c\<lparr>newTask := target_value\<rparr>"

definition row_onClick :: "number \<Rightarrow> Tasks_state \<Rightarrow> js_error + Tasks_state" where
  "row_onClick task_id c =
     (case handleDeleteTask task_id (hook c) of
        Inl e \<Rightarrow> Inl e
      | Inr h \<Rightarrow> Inr (c\<lparr>hook := h\<rparr>))"

text \<open>
  What the component returns. An element carries its handler as a value: the function
  that the arrow function calls, with what its closure holds (\<open>HandleNewTask\<close> the
  draft, \<open>HandleDeleteTask\<close> the row's \<open>task.id\<close>). \<open>Input value name onChange\<close> is the
  input, \<open>Div key onClick children\<close> a row.
\<close>

datatype handler = HandleNewTask string | SetNewTask | HandleDeleteTask jsval

datatype element =
    Span string
  | Button handler string
  | Input string string handler
  | Div jsval handler "element list"
  | H3 jsval
  | Fragment "element list"

text \<open>\<open>task.title\<close>, read as \<open>task.id\<close> is.\<close>

fun member_title :: "jsval \<Rightarrow> js_error + jsval" where
  "member_title JUndefined = Inl TypeError"
| "member_title JNull = Inl TypeError"
| "member_title (JObj props) =
     Inr (case map_of props ''title'' of Some v \<Rightarrow> v | None \<Rightarrow> JUndefined)"
| "member_title _ = Inr JUndefined"

text \<open>\<open>Array.prototype.map\<close> with a callback that may throw.\<close>

fun Array_map :: "(jsval \<Rightarrow> js_error + 'a) \<Rightarrow> jsval list \<Rightarrow> js_error + 'a list" where
  "Array_map f [] = Inr []"
| "Array_map f (x # xs) =
     (case f x of
        Inl e \<Rightarrow> Inl e
      | Inr y \<Rightarrow> (case Array_map f xs of Inl e \<Rightarrow> Inl e | Inr ys \<Rightarrow> Inr (y # ys)))"

text \<open>
  The callback of \<open>tasks?.map\<close>:
  \<open><div key={task.id} onClick={() => handleDeleteTask(task.id)}><h3>{task.title}</h3></div>\<close>.
\<close>

definition Tasks_row :: "jsval \<Rightarrow> js_error + element" where
  "Tasks_row task =
     (case member_id task of
        Inl e \<Rightarrow> Inl e
      | Inr task_id \<Rightarrow>
          (case member_title task of
             Inl e \<Rightarrow> Inl e
           | Inr task_title \<Rightarrow> Inr (Div task_id (HandleDeleteTask task_id) [H3 task_title])))"

text \<open>
  The component: \<open>if (loading) return <span>Loading</span>\<close>, and otherwise the fragment
  of the button, the input and the rows. \<open>tasks?.map(...)\<close> is nothing when \<open>tasks\<close> is
  \<open>undefined\<close> or \<open>null\<close> and throws when \<open>tasks\<close> is any other value that is not an
  array, for such a value has no method \<open>map\<close>.
\<close>

definition Tasks :: "Tasks_state \<Rightarrow> js_error + element" where
  "Tasks c =
     (if loading (hook c) then Inr (Span ''Loading'')
      else
        (case (case tasks (hook c) of
                 JUndefined \<Rightarrow> Inr []
               | JNull \<Rightarrow> Inr []
               | JArr xs \<Rightarrow> Array_map Tasks_row xs
               | _ \<Rightarrow> Inl TypeError) of
           Inl e \<Rightarrow> Inl e
         | Inr rows \<Rightarrow>
             Inr (Fragment (Button (HandleNewTask (newTask c)) ''new task''
                            # Input (newTask c) ''task'' SetNewTask # rows))))"

section \<open>The scenarios\<close>

text \<open>The record \<open>{id:1, title:"buy milk", description:"", completed:false}\<close>.\<close>

definition buy_milk :: Task where
  "buy_milk = \<lparr>id' = Finite 1, title = ''buy milk'', description = '''', completed = False\<rparr>"

text \<open>A response whose status is a success and whose body parses to \<open>data\<close>.\<close>

definition ok_response :: "jsval \<Rightarrow> js_error + response" where
  "ok_response data = Inr \<lparr>ok = True, json = Inr data\<rparr>"

section \<open>Theorems\<close>

lemma member_id_Task_obj: "member_id (Task_obj t) = Inr (JNum (id' t))"
  by (simp add: Task_obj_def)

lemma Array_filter_Task_obj:
  "Array_filter
     (\<lambda>task. case member_id task of Inl e \<Rightarrow> Inl e | Inr v \<Rightarrow> Inr (strict_not_equals v i))
     (map Task_obj ts)
   = Inr (map Task_obj (filter (\<lambda>t. \<not> number_strict_equals (id' t) i) ts))"
  by (induction ts) (simp_all add: member_id_Task_obj)

lemma handleDeleteTask_Task_array:
  "handleDeleteTask i (st\<lparr>tasks := Task_array ts\<rparr>) =
     Inr (st\<lparr>tasks := Task_array (filter (\<lambda>t. \<not> number_strict_equals (id' t) i) ts)\<rparr>)"
  by (simp add: handleDeleteTask_def Task_array_def Array_filter_Task_obj)

lemma Array_filter_idem:
  "Array_filter p xs = Inr ys \<Longrightarrow> Array_filter p ys = Inr ys"
proof (induction xs arbitrary: ys)
  case Nil
  then show ?case by simp
next
  case (Cons x xs)
  then show ?case by (auto split: sum.splits if_splits)
qed

lemma handleDeleteTask_idem:
  "handleDeleteTask i st = Inr st' \<Longrightarrow> handleDeleteTask i st' = Inr st'"
  by (auto simp: handleDeleteTask_def split: jsval.splits sum.splits dest: Array_filter_idem)

lemma id_matches_Task_array:
  "id_matches i (Task_array ts) = list_ex (\<lambda>t. number_strict_equals (id' t) i) ts"
  by (simp add: id_matches_def ids_of_def Task_array_def list_ex_iff member_id_Task_obj)

text \<open>
  C1. For every collection and every string \<open>t\<close>, the empty string included,
  \<open>handleNewTask\<close> succeeds and appends exactly one object to the end of the array,
  the elements before it unchanged and in order; the appended object is the Task with
  title \<open>t\<close>, description \<open>""\<close> and completed \<open>true\<close>, whatever \<open>t\<close> is. The rest of
  the state is left as it was.
\<close>

theorem handleNewTask_appends:
  "handleNewTask r t (st\<lparr>tasks := JArr xs\<rparr>) =
     Inr (st\<lparr>tasks := JArr (xs @
       [Task_obj \<lparr>id' = r, title = t, description = '''', completed = True\<rparr>])\<rparr>)
   \<and> handleNewTask r t (st\<lparr>tasks := Task_array ts\<rparr>) =
     Inr (st\<lparr>tasks := Task_array (ts @
       [\<lparr>id' = r, title = t, description = '''', completed = True\<rparr>])\<rparr>)"
  by (simp add: handleNewTask_def Task_array_def Task_obj_def)

theorem handleNewTask_appends_witness:
  "handleNewTask (Finite (1/2)) '''' useTask_init =
   Inr \<lparr>tasks = JArr [JObj [(''id'', JNum (Finite (1/2))), (''title'', JStr ''''),
                           (''description'', JStr ''''), (''completed'', JBool True)]],
        loading = True, console = []\<rparr>"
  using handleNewTask_appends [where r = "Finite (1/2)" and t = "''''" and st = useTask_init
      and xs = "[]" and ts = "[]"]
  by (simp add: useTask_init_def Task_obj_def)

text \<open>
  C2. For every collection of Tasks and every id, \<open>handleDeleteTask\<close> succeeds and leaves
  exactly the tasks whose id is not \<open>===\<close> to the argument, in their order; when no task
  has that id, the collection is unchanged, and the call is not an error.
\<close>

theorem handleDeleteTask_removes:
  "handleDeleteTask i (st\<lparr>tasks := Task_array ts\<rparr>) =
     Inr (st\<lparr>tasks := Task_array (filter (\<lambda>t. \<not> number_strict_equals (id' t) i) ts)\<rparr>)
   \<and> ((\<forall>t\<in>set ts. \<not> number_strict_equals (id' t) i) \<longrightarrow>
        handleDeleteTask i (st\<lparr>tasks := Task_array ts\<rparr>) = Inr (st\<lparr>tasks := Task_array ts\<rparr>))"
proof -
  have "filter (\<lambda>t. \<not> number_strict_equals (id' t) i) ts = ts"
    if "\<forall>t\<in>set ts. \<not> number_strict_equals (id' t) i"
    using that by (simp add: filter_id_conv)
  then show ?thesis
    by (auto simp add: handleDeleteTask_Task_array)
qed

theorem handleDeleteTask_removes_witness:
  "\<not> number_strict_equals (id' buy_milk) (Finite 2)
   \<and> handleDeleteTask (Finite 2) (useTask_init\<lparr>tasks := Task_array [buy_milk]\<rparr>) =
       Inr (useTask_init\<lparr>tasks := Task_array [buy_milk]\<rparr>)
   \<and> handleDeleteTask (Finite 1) (useTask_init\<lparr>tasks := Task_array [buy_milk]\<rparr>) =
       Inr (useTask_init\<lparr>tasks := Task_array []\<rparr>)"
  using handleDeleteTask_removes [where i = "Finite 2" and st = useTask_init and ts = "[buy_milk]"]
    handleDeleteTask_removes [where i = "Finite 1" and st = useTask_init and ts = "[buy_milk]"]
  by (simp add: buy_milk_def number_strict_equals_def)

text \<open>
  C9. One call of \<open>handleDeleteTask\<close> removes every task whose id is \<open>===\<close> to the
  argument, however many there are: none is left in the result, and the result is
  shorter by their number. A second call with the same id changes nothing more; this
  holds for every state on which the first call succeeds.
\<close>

theorem handleDeleteTask_removes_every_match:
  "handleDeleteTask i (st\<lparr>tasks := Task_array ts\<rparr>) =
     Inr (st\<lparr>tasks := Task_array (filter (\<lambda>t. \<not> number_strict_equals (id' t) i) ts)\<rparr>)
   \<and> \<not> id_matches i (Task_array (filter (\<lambda>t. \<not> number_strict_equals (id' t) i) ts))
   \<and> length (filter (\<lambda>t. \<not> number_strict_equals (id' t) i) ts) =
       length ts - length (filter (\<lambda>t. number_strict_equals (id' t) i) ts)
   \<and> (handleDeleteTask i s = Inr s' \<longrightarrow> handleDeleteTask i s' = Inr s')"
proof -
  have "length (filter (\<lambda>t. number_strict_equals (id' t) i) ts)
        + length (filter (\<lambda>t. \<not> number_strict_equals (id' t) i) ts) = length ts"
    by (rule sum_length_filter_compl)
  then have "length (filter (\<lambda>t. \<not> number_strict_equals (id' t) i) ts) =
       length ts - length (filter (\<lambda>t. number_strict_equals (id' t) i) ts)"
    by arith
  moreover have "\<not> id_matches i (Task_array (filter (\<lambda>t. \<not> number_strict_equals (id' t) i) ts))"
    by (simp add: id_matches_Task_array list_ex_iff)
  ultimately show ?thesis
    using handleDeleteTask_Task_array handleDeleteTask_idem by blast
qed

theorem handleDeleteTask_removes_every_match_witness:
  "handleDeleteTask (Finite 1)
     (useTask_init\<lparr>tasks := Task_array [buy_milk, buy_milk\<lparr>title := ''read book''\<rparr>,
                                         buy_milk\<lparr>id' := Finite 2\<rparr>]\<rparr>) =
     Inr (useTask_init\<lparr>tasks := Task_array [buy_milk\<lparr>id' := Finite 2\<rparr>]\<rparr>)
   \<and> handleDeleteTask (Finite 1)
       (useTask_init\<lparr>tasks := Task_array [buy_milk\<lparr>id' := Finite 2\<rparr>]\<rparr>) =
     Inr (useTask_init\<lparr>tasks := Task_array [buy_milk\<lparr>id' := Finite 2\<rparr>]\<rparr>)"
proof -
  have first: "handleDeleteTask (Finite 1)
     (useTask_init\<lparr>tasks := Task_array [buy_milk, buy_milk\<lparr>title := ''read book''\<rparr>,
                                         buy_milk\<lparr>id' := Finite 2\<rparr>]\<rparr>) =
     Inr (useTask_init\<lparr>tasks := Task_array [buy_milk\<lparr>id' := Finite 2\<rparr>]\<rparr>)"
    using handleDeleteTask_removes_every_match [where i = "Finite 1" and st = useTask_init
        and ts = "[buy_milk, buy_milk\<lparr>title := ''read book''\<rparr>, buy_milk\<lparr>id' := Finite 2\<rparr>]"]
    by (simp add: buy_milk_def number_strict_equals_def)
  from first handleDeleteTask_removes_every_match [where i = "Finite 1"
      and s = "useTask_init\<lparr>tasks := Task_array [buy_milk, buy_milk\<lparr>title := ''read book''\<rparr>,
                                         buy_milk\<lparr>id' := Finite 2\<rparr>]\<rparr>"
      and s' = "useTask_init\<lparr>tasks := Task_array [buy_milk\<lparr>id' := Finite 2\<rparr>]\<rparr>"]
  show ?thesis by blast
qed

text \<open>
  C3. When the load fails (the fetch rejects, the response is not \<open>ok\<close>, or its body does
  not parse), \<open>getTasks\<close> is fulfilled, not rejected; it leaves the collection and the
  console as they were and sets the loading flag to false. The state has no cell for
  an error. On the state the hook is created with, the collection after the load is
  the empty array. While the flag is true the component returns the loading indicator
  alone, so it offers no control that could change the collection before the load
  settles; after the failed load it returns the button and the input and no row.
\<close>

theorem getTasks_failure_absorbed:
  "getTasks (Inl e) st = Inr (st\<lparr>loading := False\<rparr>)
   \<and> getTasks (Inr \<lparr>ok = False, json = body\<rparr>) st = Inr (st\<lparr>loading := False\<rparr>)
   \<and> getTasks (Inr \<lparr>ok = True, json = Inl e\<rparr>) st = Inr (st\<lparr>loading := False\<rparr>)
   \<and> run [Settled (Inl e)] useTask_init = Inr \<lparr>tasks = JArr [], loading = False, console = []\<rparr>
   \<and> run [Settled (Inr \<lparr>ok = False, json = body\<rparr>)] useTask_init =
       Inr \<lparr>tasks = JArr [], loading = False, console = []\<rparr>
   \<and> run [Settled (Inr \<lparr>ok = True, json = Inl e\<rparr>)] useTask_init =
       Inr \<lparr>tasks = JArr [], loading = False, console = []\<rparr>
   \<and> (loading (hook c) \<longrightarrow> Tasks c = Inr (Span ''Loading''))
   \<and> Tasks \<lparr>hook = \<lparr>tasks = JArr [], loading = False, console = []\<rparr>, newTask = draft\<rparr> =
       Inr (Fragment [Button (HandleNewTask draft) ''new task'', Input draft ''task'' SetNewTask])"
  by (simp add: getTasks_def getTasks_try_def useTask_init_def Tasks_def)

theorem getTasks_failure_absorbed_witness:
  "run [Settled (Inl TypeError)] useTask_init =
       Inr \<lparr>tasks = JArr [], loading = False, console = []\<rparr>
   \<and> run [Settled (Inr \<lparr>ok = False, json = Inr (Task_array [buy_milk])\<rparr>)] useTask_init =
       Inr \<lparr>tasks = JArr [], loading = False, console = []\<rparr>
   \<and> run [Settled (Inr \<lparr>ok = True, json = Inl SyntaxError\<rparr>)] useTask_init =
       Inr \<lparr>tasks = JArr [], loading = False, console = []\<rparr>
   \<and> loading (hook Tasks_init)
   \<and> Tasks Tasks_init = Inr (Span ''Loading'')"
proof -
  have pending: "loading (hook Tasks_init)"
    by (simp add: Tasks_init_def useTask_init_def)
  from pending
    getTasks_failure_absorbed [where e = TypeError and body = "Inr (Task_array [buy_milk])"
      and c = Tasks_init]
    getTasks_failure_absorbed [where e = SyntaxError and body = "Inr (Task_array [buy_milk])"]
  show ?thesis by blast
qed

text \<open>
  C4. When the load succeeds, \<open>getTasks\<close> replaces the whole collection by the payload,
  whatever the collection was, and sets the loading flag to false. For the payload
  \<open>[{id:1, title:"buy milk", description:"", completed:false}]\<close> the collection after
  the load is that one element.
\<close>

theorem getTasks_success_replaces:
  "getTasks (ok_response data) st =
     Inr (st\<lparr>console := console st @ [data], tasks := data, loading := False\<rparr>)
   \<and> Task_array [buy_milk] =
       JArr [JObj [(''id'', JNum (Finite 1)), (''title'', JStr ''buy milk''),
                   (''description'', JStr ''''), (''completed'', JBool False)]]
   \<and> run [Settled (ok_response (Task_array [buy_milk]))] useTask_init =
       Inr \<lparr>tasks = Task_array [buy_milk], loading = False, console = [Task_array [buy_milk]]\<rparr>"
  by (simp add: getTasks_def getTasks_try_def ok_response_def useTask_init_def Task_array_def
      Task_obj_def buy_milk_def)

theorem getTasks_success_replaces_witness:
  "getTasks (ok_response (Task_array [buy_milk]))
     \<lparr>tasks = Task_array [buy_milk\<lparr>id' := Finite 2\<rparr>, buy_milk\<lparr>id' := Finite 3\<rparr>],
      loading = True, console = []\<rparr> =
   Inr \<lparr>tasks = Task_array [buy_milk], loading = False, console = [Task_array [buy_milk]]\<rparr>"
  using getTasks_success_replaces [where data = "Task_array [buy_milk]"
      and st = "\<lparr>tasks = Task_array [buy_milk\<lparr>id' := Finite 2\<rparr>, buy_milk\<lparr>id' := Finite 3\<rparr>],
                 loading = True, console = []\<rparr>", THEN conjunct1]
  by simp

text \<open>
  C10. When the response is \<open>ok\<close> and its body parses, the \<open>try\<close> block of \<open>getTasks\<close> does
  not throw, whatever the parsed value is, and \<open>getTasks\<close> makes that value the
  collection: nothing checks that it is an array of tasks. A payload that is an object,
  not an array, becomes the collection; the same load treated as a failure would have
  left the empty array.
\<close>

theorem getTasks_accepts_any_json:
  "getTasks_try (Inr \<lparr>ok = True, json = Inr data\<rparr>) st =
     Inr (st\<lparr>console := console st @ [data], tasks := data\<rparr>)
   \<and> (\<exists>st'. getTasks (Inr \<lparr>ok = True, json = Inr data\<rparr>) st = Inr st'
          \<and> tasks st' = data \<and> \<not> loading st')
   \<and> run [Settled (Inr \<lparr>ok = True, json = Inr (JObj [(''message'', JStr ''no tasks'')])\<rparr>)]
        useTask_init =
       Inr \<lparr>tasks = JObj [(''message'', JStr ''no tasks'')], loading = False,
            console = [JObj [(''message'', JStr ''no tasks'')]]\<rparr>"
  by (simp add: getTasks_def getTasks_try_def useTask_init_def)

theorem getTasks_accepts_any_json_witness:
  "getTasks_try (Inr \<lparr>ok = True, json = Inr (JNum (Finite 5))\<rparr>) useTask_init =
     Inr \<lparr>tasks = JNum (Finite 5), loading = True, console = [JNum (Finite 5)]\<rparr>
   \<and> run [Settled (Inr \<lparr>ok = True, json = Inr (JObj [(''message'', JStr ''no tasks'')])\<rparr>)]
        useTask_init \<noteq> run [Settled (Inl TypeError)] useTask_init"
  using getTasks_accepts_any_json [where data = "JNum (Finite 5)" and st = useTask_init]
  by (simp add: useTask_init_def getTasks_def getTasks_try_def)

lemma handleNewTask_loading:
  "handleNewTask r t st = Inr st' \<Longrightarrow> loading st' = loading st"
  by (auto simp: handleNewTask_def split: sum.splits)

lemma handleDeleteTask_loading:
  "handleDeleteTask i st = Inr st' \<Longrightarrow> loading st' = loading st"
  by (auto simp: handleDeleteTask_def split: jsval.splits sum.splits)

lemma do_call_loading:
  "do_call c st = Inr st' \<Longrightarrow> loading st' = loading st"
  by (cases c) (auto dest: handleNewTask_loading handleDeleteTask_loading)

lemma getTasks_loading:
  "getTasks fetched st = Inr st' \<Longrightarrow> \<not> loading st'"
  by (auto simp: getTasks_def Let_def)

lemma run_loading:
  "run es st = Inr st' \<Longrightarrow> loading st' = (loading st \<and> \<not> list_ex is_Settled es)"
proof (induction es arbitrary: st)
  case Nil
  then show ?case by simp
next
  case (Cons e es)
  from Cons.prems obtain st1 where s1: "step e st = Inr st1" and r: "run es st1 = Inr st'"
    by (auto split: sum.splits)
  have "loading st1 = (loading st \<and> \<not> is_Settled e)"
  proof (cases e)
    case (Settled fetched)
    with s1 show ?thesis by (auto dest: getTasks_loading)
  next
    case (Called c)
    with s1 show ?thesis by (auto dest: do_call_loading)
  qed
  with Cons.IH [OF r] show ?case by auto
qed

text \<open>
  C5. The hook is created with the loading flag true. After any sequence of events
  (calls of the two operations, and the fetch settling with any outcome) that the hook
  survives, the flag is true exactly when the fetch has not settled yet: it is true
  while the load is pending, false once the load has settled, whether it succeeded or
  failed, and no later event sets it to true again.
\<close>

theorem loading_until_settled:
  "loading useTask_init
   \<and> (run es useTask_init = Inr st \<longrightarrow> loading st = (\<not> list_ex is_Settled es))
   \<and> (\<not> loading st0 \<and> run es st0 = Inr st \<longrightarrow> \<not> loading st)"
proof -
  have "loading useTask_init"
    by (simp add: useTask_init_def)
  then show ?thesis
    using run_loading by blast
qed

theorem loading_until_settled_witness:
  "run [Called (NewTask (Finite (1/2)) ''read book'')] useTask_init =
     Inr \<lparr>tasks = Task_array [\<lparr>id' = Finite (1/2), title = ''read book'', description = '''',
                               completed = True\<rparr>],
          loading = True, console = []\<rparr>
   \<and> run [Called (NewTask (Finite (1/2)) ''read book''), Settled (Inl TypeError),
          Called (DeleteTask (Finite (1/2))), Called (NewTask (Finite (1/4)) ''read book'')]
       useTask_init =
     Inr \<lparr>tasks = Task_array [\<lparr>id' = Finite (1/4), title = ''read book'', description = '''',
                               completed = True\<rparr>],
          loading = False, console = []\<rparr>
   \<and> loading \<lparr>tasks = Task_array [\<lparr>id' = Finite (1/4), title = ''read book'',
                                   description = '''', completed = True\<rparr>],
               loading = False, console = []\<rparr> =
       (\<not> list_ex is_Settled
            [Called (NewTask (Finite (1/2)) ''read book''), Settled (Inl TypeError),
             Called (DeleteTask (Finite (1/2))), Called (NewTask (Finite (1/4)) ''read book'')])"
proof -
  have r1: "run [Called (NewTask (Finite (1/2)) ''read book'')] useTask_init =
     Inr \<lparr>tasks = Task_array [\<lparr>id' = Finite (1/2), title = ''read book'', description = '''',
                               completed = True\<rparr>],
          loading = True, console = []\<rparr>"
    by (simp add: useTask_init_def handleNewTask_def Task_array_def Task_obj_def)
  have r2: "run [Called (NewTask (Finite (1/2)) ''read book''), Settled (Inl TypeError),
          Called (DeleteTask (Finite (1/2))), Called (NewTask (Finite (1/4)) ''read book'')]
       useTask_init =
     Inr \<lparr>tasks = Task_array [\<lparr>id' = Finite (1/4), title = ''read book'', description = '''',
                               completed = True\<rparr>],
          loading = False, console = []\<rparr>"
    by (simp add: useTask_init_def handleNewTask_def handleDeleteTask_def getTasks_def
        getTasks_try_def Task_array_def Task_obj_def number_strict_equals_def)
  from r1 r2 loading_until_settled [where st = "\<lparr>tasks = Task_array [\<lparr>id' = Finite (1/4),
        title = ''read book'', description = '''', completed = True\<rparr>],
        loading = False, console = []\<rparr>"
      and es = "[Called (NewTask (Finite (1/2)) ''read book''), Settled (Inl TypeError),
          Called (DeleteTask (Finite (1/2))), Called (NewTask (Finite (1/4)) ''read book'')]"]
  show ?thesis by blast
qed

text \<open>
  C8. The button that the component returns carries the handler that calls
  \<open>handleNewTask\<close> with the current value of the draft \<open>newTask\<close>. Running it calls
  \<open>handleNewTask\<close> with that value and changes nothing of the component's state but the
  state of the hook: the draft keeps its value. On a collection that is an array the
  click appends the task whose title is the draft.
\<close>

theorem button_onClick_keeps_draft:
  "(button_onClick r c = Inr c' \<longrightarrow>
      handleNewTask r (newTask c) (hook c) = Inr (hook c') \<and> newTask c' = newTask c
      \<and> c' = c\<lparr>hook := hook c'\<rparr>)
   \<and> (tasks (hook c) = JArr xs \<longrightarrow>
      button_onClick r c =
        Inr (c\<lparr>hook := (hook c)\<lparr>tasks := JArr (xs @
          [Task_obj \<lparr>id' = r, title = newTask c, description = '''', completed = True\<rparr>])\<rparr>\<rparr>))
   \<and> (Tasks c = Inr (Fragment els) \<longrightarrow>
      (\<exists>rows. els = Button (HandleNewTask (newTask c)) ''new task''
                      # Input (newTask c) ''task'' SetNewTask # rows))"
  by (auto simp: button_onClick_def handleNewTask_def Task_obj_def Tasks_def
      split: sum.splits if_splits)

theorem button_onClick_keeps_draft_witness:
  "button_onClick (Finite (1/2)) \<lparr>hook = useTask_init\<lparr>loading := False\<rparr>, newTask = ''read book''\<rparr> =
     Inr \<lparr>hook = \<lparr>tasks = Task_array [\<lparr>id' = Finite (1/2), title = ''read book'',
                                         description = '''', completed = True\<rparr>],
                   loading = False, console = []\<rparr>,
          newTask = ''read book''\<rparr>
   \<and> handleNewTask (Finite (1/2)) ''read book'' (useTask_init\<lparr>loading := False\<rparr>) =
     Inr \<lparr>tasks = Task_array [\<lparr>id' = Finite (1/2), title = ''read book'',
                               description = '''', completed = True\<rparr>],
          loading = False, console = []\<rparr>
   \<and> Tasks \<lparr>hook = useTask_init\<lparr>loading := False\<rparr>, newTask = ''read book''\<rparr> =
     Inr (Fragment [Button (HandleNewTask ''read book'') ''new task'',
                    Input ''read book'' ''task'' SetNewTask])"
proof -
  have clicked: "button_onClick (Finite (1/2))
       \<lparr>hook = useTask_init\<lparr>loading := False\<rparr>, newTask = ''read book''\<rparr> =
     Inr \<lparr>hook = \<lparr>tasks = Task_array [\<lparr>id' = Finite (1/2), title = ''read book'',
                                         description = '''', completed = True\<rparr>],
                   loading = False, console = []\<rparr>,
          newTask = ''read book''\<rparr>"
    using button_onClick_keeps_draft [where r = "Finite (1/2)"
        and c = "\<lparr>hook = useTask_init\<lparr>loading := False\<rparr>, newTask = ''read book''\<rparr>"
        and xs = "[]", THEN conjunct2, THEN conjunct1]
    by (simp add: useTask_init_def Task_array_def)
  have shown: "Tasks \<lparr>hook = useTask_init\<lparr>loading := False\<rparr>, newTask = ''read book''\<rparr> =
     Inr (Fragment [Button (HandleNewTask ''read book'') ''new task'',
                    Input ''read book'' ''task'' SetNewTask])"
    by (simp add: Tasks_def useTask_init_def)
  from clicked shown button_onClick_keeps_draft [where r = "Finite (1/2)"
      and c = "\<lparr>hook = useTask_init\<lparr>loading := False\<rparr>, newTask = ''read book''\<rparr>"
      and c' = "\<lparr>hook = \<lparr>tasks = Task_array [\<lparr>id' = Finite (1/2), title = ''read book'',
                                         description = '''', completed = True\<rparr>],
                   loading = False, console = []\<rparr>,
          newTask = ''read book''\<rparr>", THEN conjunct1]
  show ?thesis by simp
qed

lemma ids_of_Task_array:
  "ids_of (Task_array ts) = map (\<lambda>t. Inr (JNum (id' t))) ts"
  by (simp add: ids_of_def Task_array_def member_id_Task_obj)

lemma unique_ids_Task_array:
  "unique_ids (Task_array ts) = distinct (map id' ts)"
proof -
  have "map (\<lambda>t. (Inr (JNum (id' t)) :: js_error + jsval)) ts
        = map (\<lambda>n. Inr (JNum n)) (map id' ts)"
    by simp
  moreover have "inj_on (\<lambda>n. (Inr (JNum n) :: js_error + jsval)) A" for A
    by (simp add: inj_on_def)
  ultimately show ?thesis
    unfolding unique_ids_def ids_of_Task_array
    by (metis distinct_map)
qed

lemma fresh_id_Task_array:
  "fresh_id r (Task_array ts) = (r \<notin> id' ` set ts)"
  by (auto simp: fresh_id_def ids_of_Task_array)

lemma handleNewTask_Task_array:
  "handleNewTask r t (st\<lparr>tasks := Task_array ts\<rparr>) =
     Inr (st\<lparr>tasks := Task_array (ts @
       [\<lparr>id' = r, title = t, description = '''', completed = True\<rparr>])\<rparr>)"
  by (simp add: handleNewTask_def Task_array_def Task_obj_def)

lemma length_filter_distinct_ids:
  "distinct (map id' ts) \<Longrightarrow>
   length (filter (\<lambda>t. \<not> number_strict_equals (id' t) i) ts)
     + (if list_ex (\<lambda>t. number_strict_equals (id' t) i) ts then 1 else 0) = length ts"
proof (induction ts)
  case Nil
  then show ?case by simp
next
  case (Cons x ts)
  show ?case
  proof (cases "number_strict_equals (id' x) i")
    case True
    then have "id' x = i"
      by (simp add: number_strict_equals_def)
    moreover from Cons.prems have "id' x \<notin> id' ` set ts"
      by simp
    ultimately have "\<forall>t\<in>set ts. id' t \<noteq> i"
      by blast
    then have "\<forall>t\<in>set ts. \<not> number_strict_equals (id' t) i"
      by (simp add: number_strict_equals_def)
    then have "filter (\<lambda>t. \<not> number_strict_equals (id' t) i) ts = ts"
      by (simp add: filter_id_conv)
    with True show ?thesis by simp
  next
    case False
    with Cons show ?thesis by simp
  qed
qed

lemma calls_length:
  "distinct (map id' ts0) \<Longrightarrow> ids_fresh (map Called cs) (st\<lparr>tasks := Task_array ts0\<rparr>) \<Longrightarrow>
   \<exists>ts. run (map Called cs) (st\<lparr>tasks := Task_array ts0\<rparr>) = Inr (st\<lparr>tasks := Task_array ts\<rparr>)
      \<and> int (length ts) =
          int (length ts0) + int (creates cs)
            - int (matched_deletes cs (st\<lparr>tasks := Task_array ts0\<rparr>))"
proof (induction cs arbitrary: ts0)
  case Nil
  show ?case by (rule exI [of _ ts0]) simp
next
  case (Cons c cs)
  show ?case
  proof (cases c)
    case (NewTask r t)
    let ?ts1 = "ts0 @ [\<lparr>id' = r, title = t, description = '''', completed = True\<rparr>]"
    have s1: "do_call c (st\<lparr>tasks := Task_array ts0\<rparr>) = Inr (st\<lparr>tasks := Task_array ?ts1\<rparr>)"
      using NewTask by (simp add: handleNewTask_Task_array)
    from Cons.prems NewTask have "r \<notin> id' ` set ts0"
      by (simp add: fresh_id_Task_array)
    with Cons.prems(1) have d1: "distinct (map id' ?ts1)"
      by simp
    from Cons.prems(2) s1 have f1: "ids_fresh (map Called cs) (st\<lparr>tasks := Task_array ?ts1\<rparr>)"
      by simp
    from Cons.IH [OF d1 f1] obtain ts where
      r: "run (map Called cs) (st\<lparr>tasks := Task_array ?ts1\<rparr>) = Inr (st\<lparr>tasks := Task_array ts\<rparr>)"
      and n: "int (length ts) = int (length ?ts1) + int (creates cs)
                - int (matched_deletes cs (st\<lparr>tasks := Task_array ?ts1\<rparr>))"
      by blast
    from r s1 have "run (map Called (c # cs)) (st\<lparr>tasks := Task_array ts0\<rparr>)
        = Inr (st\<lparr>tasks := Task_array ts\<rparr>)"
      by simp
    moreover from n s1 NewTask have "int (length ts) =
          int (length ts0) + int (creates (c # cs))
            - int (matched_deletes (c # cs) (st\<lparr>tasks := Task_array ts0\<rparr>))"
      by simp
    ultimately show ?thesis by blast
  next
    case (DeleteTask i)
    let ?ts1 = "filter (\<lambda>t. \<not> number_strict_equals (id' t) i) ts0"
    have s1: "do_call c (st\<lparr>tasks := Task_array ts0\<rparr>) = Inr (st\<lparr>tasks := Task_array ?ts1\<rparr>)"
      using DeleteTask by (simp add: handleDeleteTask_Task_array)
    from Cons.prems(1) have d1: "distinct (map id' ?ts1)"
      by (simp add: distinct_map_filter)
    from Cons.prems(2) s1 have f1: "ids_fresh (map Called cs) (st\<lparr>tasks := Task_array ?ts1\<rparr>)"
      by simp
    from Cons.IH [OF d1 f1] obtain ts where
      r: "run (map Called cs) (st\<lparr>tasks := Task_array ?ts1\<rparr>) = Inr (st\<lparr>tasks := Task_array ts\<rparr>)"
      and n: "int (length ts) = int (length ?ts1) + int (creates cs)
                - int (matched_deletes cs (st\<lparr>tasks := Task_array ?ts1\<rparr>))"
      by blast
    from r s1 have "run (map Called (c # cs)) (st\<lparr>tasks := Task_array ts0\<rparr>)
        = Inr (st\<lparr>tasks := Task_array ts\<rparr>)"
      by simp
    moreover have "int (length ?ts1) =
        int (length ts0) - (if id_matches i (Task_array ts0) then 1 else 0)"
      using length_filter_distinct_ids [OF Cons.prems(1), of i]
      by (simp add: id_matches_Task_array split: if_splits)
    with n s1 DeleteTask have "int (length ts) =
          int (length ts0) + int (creates (c # cs))
            - int (matched_deletes (c # cs) (st\<lparr>tasks := Task_array ts0\<rparr>))"
      by simp
    ultimately show ?thesis by blast
  qed
qed

text \<open>
  C6, as amended. Start from a state whose collection is an array of Tasks with pairwise
  different ids, and issue any finite sequence of \<open>handleNewTask\<close> and
  \<open>handleDeleteTask\<close> calls in which every new task's random id differs from the ids
  present at the time of its call. Then every call succeeds, and the length of the
  final collection is the initial length plus the number of \<open>handleNewTask\<close> calls
  minus the number of \<open>handleDeleteTask\<close> calls whose id matched a present task at the
  time of the call.
\<close>

theorem length_after_calls:
  "unique_ids (Task_array ts0) \<Longrightarrow>
   ids_fresh (map Called cs) (st\<lparr>tasks := Task_array ts0\<rparr>) \<Longrightarrow>
   \<exists>ts. run (map Called cs) (st\<lparr>tasks := Task_array ts0\<rparr>) = Inr (st\<lparr>tasks := Task_array ts\<rparr>)
      \<and> int (length ts) =
          int (length ts0) + int (creates cs)
            - int (matched_deletes cs (st\<lparr>tasks := Task_array ts0\<rparr>))"
  by (rule calls_length) (simp_all add: unique_ids_Task_array)

theorem length_after_calls_witness:
  "unique_ids (Task_array [buy_milk])
   \<and> ids_fresh
        (map Called [NewTask (Finite (1/2)) ''read book'', DeleteTask (Finite 1),
                     DeleteTask (Finite 7)])
        (useTask_init\<lparr>loading := False, tasks := Task_array [buy_milk]\<rparr>)
   \<and> creates [NewTask (Finite (1/2)) ''read book'', DeleteTask (Finite 1),
               DeleteTask (Finite 7)] = 1
   \<and> matched_deletes [NewTask (Finite (1/2)) ''read book'', DeleteTask (Finite 1),
                       DeleteTask (Finite 7)]
        (useTask_init\<lparr>loading := False, tasks := Task_array [buy_milk]\<rparr>) = 1
   \<and> (\<exists>ts. run (map Called [NewTask (Finite (1/2)) ''read book'', DeleteTask (Finite 1),
                             DeleteTask (Finite 7)])
              (useTask_init\<lparr>loading := False, tasks := Task_array [buy_milk]\<rparr>) =
            Inr (useTask_init\<lparr>loading := False, tasks := Task_array ts\<rparr>)
          \<and> int (length ts) = 1 + 1 - 1)"
proof -
  have u: "unique_ids (Task_array [buy_milk])"
    by (simp add: unique_ids_def ids_of_def Task_array_def)
  have f: "ids_fresh
        (map Called [NewTask (Finite (1/2)) ''read book'', DeleteTask (Finite 1),
                     DeleteTask (Finite 7)])
        (useTask_init\<lparr>loading := False, tasks := Task_array [buy_milk]\<rparr>)"
    by (simp add: fresh_id_def ids_of_def Task_array_def Task_obj_def buy_milk_def
        handleNewTask_def handleDeleteTask_def number_strict_equals_def)
  have c: "creates [NewTask (Finite (1/2)) ''read book'', DeleteTask (Finite 1),
               DeleteTask (Finite 7)] = 1"
    by simp
  have m: "matched_deletes [NewTask (Finite (1/2)) ''read book'', DeleteTask (Finite 1),
                       DeleteTask (Finite 7)]
        (useTask_init\<lparr>loading := False, tasks := Task_array [buy_milk]\<rparr>) = 1"
    by (simp add: id_matches_def ids_of_def Task_array_def Task_obj_def buy_milk_def
        handleNewTask_def handleDeleteTask_def number_strict_equals_def)
  from length_after_calls [OF u f] c m u f show ?thesis
    by simp
qed

text \<open>
  C6 as the specification states it fails when two tasks share an id: the payload
  \<open>[{id:1, title:"buy milk", ...}, {id:1, title:"read book", ...}]\<close> is loaded, and the
  one call \<open>handleDeleteTask(1)\<close>, which matches, leaves 0 tasks and not 2 + 0 - 1.
\<close>

theorem length_after_calls_counterexample:
  "run [Settled (ok_response (Task_array [buy_milk, buy_milk\<lparr>title := ''read book''\<rparr>]))]
       useTask_init =
     Inr \<lparr>tasks = Task_array [buy_milk, buy_milk\<lparr>title := ''read book''\<rparr>], loading = False,
          console = [Task_array [buy_milk, buy_milk\<lparr>title := ''read book''\<rparr>]]\<rparr>
   \<and> run (map Called [DeleteTask (Finite 1)])
       \<lparr>tasks = Task_array [buy_milk, buy_milk\<lparr>title := ''read book''\<rparr>], loading = False,
        console = [Task_array [buy_milk, buy_milk\<lparr>title := ''read book''\<rparr>]]\<rparr> =
     Inr \<lparr>tasks = Task_array [], loading = False,
          console = [Task_array [buy_milk, buy_milk\<lparr>title := ''read book''\<rparr>]]\<rparr>
   \<and> int (length ([] :: Task list)) \<noteq>
       int (length [buy_milk, buy_milk\<lparr>title := ''read book''\<rparr>])
       + int (creates [DeleteTask (Finite 1)])
       - int (matched_deletes [DeleteTask (Finite 1)]
           \<lparr>tasks = Task_array [buy_milk, buy_milk\<lparr>title := ''read book''\<rparr>], loading = False,
            console = [Task_array [buy_milk, buy_milk\<lparr>title := ''read book''\<rparr>]]\<rparr>)"
  by (simp add: ok_response_def getTasks_def getTasks_try_def useTask_init_def
      handleDeleteTask_def id_matches_def ids_of_def Task_array_def Task_obj_def buy_milk_def
      number_strict_equals_def)

lemma Array_filter_is_filter:
  "Array_filter p xs = Inr ys \<Longrightarrow> ys = filter (\<lambda>x. p x = Inr True) xs"
  by (induction xs arbitrary: ys) (auto split: sum.splits if_splits)

lemma handleNewTask_unique:
  assumes "is_array (tasks st)" and "unique_ids (tasks st)" and "fresh_id r (tasks st)"
    and "handleNewTask r t st = Inr st'"
  shows "is_array (tasks st') \<and> unique_ids (tasks st')"
proof -
  from assms(1) obtain xs where xs: "tasks st = JArr xs"
    by (auto simp: is_array_def split: jsval.splits)
  with assms(4) have "tasks st' =
      JArr (xs @ [JObj [(''id'', JNum r), (''title'', JStr t),
                        (''description'', JStr ''''), (''completed'', JBool True)]])"
    by (auto simp: handleNewTask_def)
  with xs assms(2,3) show ?thesis
    by (simp add: is_array_def unique_ids_def fresh_id_def ids_of_def)
qed

lemma handleDeleteTask_unique:
  assumes "unique_ids (tasks st)" and "handleDeleteTask i st = Inr st'"
  shows "is_array (tasks st') \<and> unique_ids (tasks st')"
proof -
  from assms(2) obtain xs ys p where xs: "tasks st = JArr xs" and ys: "tasks st' = JArr ys"
    and f: "Array_filter p xs = Inr ys"
    by (auto simp: handleDeleteTask_def split: jsval.splits sum.splits)
  from f have "ys = filter (\<lambda>x. p x = Inr True) xs"
    by (rule Array_filter_is_filter)
  with assms(1) xs ys show ?thesis
    by (simp add: is_array_def unique_ids_def ids_of_def distinct_map_filter)
qed

lemma step_unique:
  assumes "is_array (tasks st)" and "unique_ids (tasks st)" and "brings_new_ids e st"
    and "step e st = Inr st'"
  shows "is_array (tasks st') \<and> unique_ids (tasks st')"
proof (cases e)
  case (Settled fetched)
  show ?thesis
  proof (cases "getTasks_try fetched st")
    case (Inl err)
    with Settled assms(4) have "tasks st' = tasks st"
      by (auto simp: getTasks_def)
    with assms(1,2) show ?thesis by simp
  next
    case (Inr loaded)
    with Settled assms(4) have "tasks st' = tasks loaded"
      by (auto simp: getTasks_def)
    with Settled Inr assms(3) show ?thesis by simp
  qed
next
  case (Called c)
  show ?thesis
  proof (cases c)
    case (NewTask r t)
    with Called assms show ?thesis
      by (auto dest: handleNewTask_unique)
  next
    case (DeleteTask i)
    with Called assms show ?thesis
      by (auto dest: handleDeleteTask_unique)
  qed
qed

lemma run_unique:
  "is_array (tasks st) \<Longrightarrow> unique_ids (tasks st) \<Longrightarrow> ids_fresh es st \<Longrightarrow>
   run es st = Inr st' \<Longrightarrow> is_array (tasks st') \<and> unique_ids (tasks st')"
proof (induction es arbitrary: st)
  case Nil
  then show ?case by simp
next
  case (Cons e es)
  from Cons.prems(4) obtain st1 where s1: "step e st = Inr st1" and r: "run es st1 = Inr st'"
    by (auto split: sum.splits)
  from Cons.prems(3) s1 have b: "brings_new_ids e st" and f: "ids_fresh es st1"
    by simp_all
  from step_unique [OF Cons.prems(1,2) b s1] have "is_array (tasks st1)" "unique_ids (tasks st1)"
    by simp_all
  then show ?case
    using f r by (rule Cons.IH)
qed

text \<open>
  C7, as amended. The hook never compares a new id with the ids present, and never
  checks the payload. If every event brings only new ids (each new task's random id
  differs from the ids present at the time of the call, and a payload that the load
  assigns is an array whose members have pairwise different ids), then in every state
  the hook reaches from its creation the collection is an array whose members have
  pairwise different ids.
\<close>

theorem unique_ids_while_fresh:
  "ids_fresh es useTask_init \<Longrightarrow> run es useTask_init = Inr st \<Longrightarrow>
   is_array (tasks st) \<and> unique_ids (tasks st)"
proof -
  assume "ids_fresh es useTask_init" and "run es useTask_init = Inr st"
  moreover have "is_array (tasks useTask_init)" and "unique_ids (tasks useTask_init)"
    by (simp_all add: useTask_init_def is_array_def unique_ids_def ids_of_def)
  ultimately show ?thesis
    using run_unique by blast
qed

theorem unique_ids_while_fresh_witness:
  "ids_fresh [Settled (ok_response (Task_array [buy_milk])),
              Called (NewTask (Finite (1/2)) ''read book''), Called (DeleteTask (Finite 1))]
        useTask_init
   \<and> run [Settled (ok_response (Task_array [buy_milk])),
          Called (NewTask (Finite (1/2)) ''read book''), Called (DeleteTask (Finite 1))]
        useTask_init =
       Inr \<lparr>tasks = Task_array [\<lparr>id' = Finite (1/2), title = ''read book'', description = '''',
                                 completed = True\<rparr>],
            loading = False, console = [Task_array [buy_milk]]\<rparr>
   \<and> unique_ids (Task_array [\<lparr>id' = Finite (1/2), title = ''read book'', description = '''',
                               completed = True\<rparr>])"
proof -
  have f: "ids_fresh [Settled (ok_response (Task_array [buy_milk])),
              Called (NewTask (Finite (1/2)) ''read book''), Called (DeleteTask (Finite 1))]
        useTask_init"
    by (simp add: ok_response_def getTasks_def getTasks_try_def useTask_init_def is_array_def
        unique_ids_def fresh_id_def ids_of_def Task_array_def Task_obj_def buy_milk_def
        handleNewTask_def handleDeleteTask_def number_strict_equals_def)
  have r: "run [Settled (ok_response (Task_array [buy_milk])),
          Called (NewTask (Finite (1/2)) ''read book''), Called (DeleteTask (Finite 1))]
        useTask_init =
       Inr \<lparr>tasks = Task_array [\<lparr>id' = Finite (1/2), title = ''read book'', description = '''',
                                 completed = True\<rparr>],
            loading = False, console = [Task_array [buy_milk]]\<rparr>"
    by (simp add: ok_response_def getTasks_def getTasks_try_def useTask_init_def
        Task_array_def Task_obj_def buy_milk_def
        handleNewTask_def handleDeleteTask_def number_strict_equals_def)
  from unique_ids_while_fresh [OF f r] f r show ?thesis
    by simp
qed

text \<open>
  C7 as the specification states it fails in two ways. A payload with two tasks of
  id 1 is assigned as it is. And two calls of \<open>handleNewTask\<close> in which
  \<open>Math.random()\<close> returns the same value 0.5 leave two tasks of id 0.5.
\<close>

theorem unique_ids_counterexample:
  "run [Settled (ok_response (Task_array [buy_milk, buy_milk\<lparr>title := ''read book''\<rparr>]))]
       useTask_init =
     Inr \<lparr>tasks = Task_array [buy_milk, buy_milk\<lparr>title := ''read book''\<rparr>], loading = False,
          console = [Task_array [buy_milk, buy_milk\<lparr>title := ''read book''\<rparr>]]\<rparr>
   \<and> \<not> unique_ids (Task_array [buy_milk, buy_milk\<lparr>title := ''read book''\<rparr>])
   \<and> run [Settled (Inl TypeError), Called (NewTask (Finite (1/2)) ''buy milk''),
          Called (NewTask (Finite (1/2)) ''read book'')] useTask_init =
     Inr \<lparr>tasks = Task_array
            [\<lparr>id' = Finite (1/2), title = ''buy milk'', description = '''', completed = True\<rparr>,
             \<lparr>id' = Finite (1/2), title = ''read book'', description = '''', completed = True\<rparr>],
          loading = False, console = []\<rparr>
   \<and> \<not> unique_ids (Task_array
            [\<lparr>id' = Finite (1/2), title = ''buy milk'', description = '''', completed = True\<rparr>,
             \<lparr>id' = Finite (1/2), title = ''read book'', description = '''', completed = True\<rparr>])"
  by (simp add: ok_response_def getTasks_def getTasks_try_def useTask_init_def
      unique_ids_def ids_of_def Task_array_def Task_obj_def buy_milk_def handleNewTask_def)

end
